theory Spec2Isabelle
  imports Main "HOL-Library.Sublist" "HOL-Library.Word"
begin

section \<open>Go strings and the library calls of mysqlreplace\<close>

text \<open>
  A Go string is a sequence of bytes; so is \<^typ>\<open>string\<close>, a list of 8-bit
  characters. The functions of this section are the calls into Go's packages
  \<^verbatim>\<open>strings\<close> and \<^verbatim>\<open>fmt\<close> that \<^verbatim>\<open>main.go\<close> makes,
  written out from what those packages compute.
\<close>

subsection \<open>strings.Contains, strings.ToLower, strings.Join\<close>

text \<open>\<^verbatim>\<open>strings.Contains(s, substr)\<close>: some position of \<open>s\<close> starts \<open>substr\<close>.\<close>

fun Contains :: "string \<Rightarrow> string \<Rightarrow> bool" where
  "Contains [] substr = (substr = [])"
| "Contains (c # cs) substr = (prefix substr (c # cs) \<or> Contains cs substr)"

text \<open>
  \<^verbatim>\<open>strings.ToLower\<close> on the letters A to Z. Every other byte is kept: the case
  mapping of runes outside ASCII is not part of this model. The program
  lower-cases a declared column type only to look for the ASCII words char, text
  and varchar in it, and no rune outside ASCII has one of their letters as its
  lower case.
\<close>

definition toLowerByte :: "char \<Rightarrow> char" where
  "toLowerByte c =
     (let n = (of_char c :: nat) in if 65 \<le> n \<and> n \<le> 90 then char_of (n + 32) else c)"

definition ToLower :: "string \<Rightarrow> string" where
  "ToLower s = map toLowerByte s"

text \<open>\<^verbatim>\<open>strings.Join(elems, sep)\<close>.\<close>

fun Join :: "string list \<Rightarrow> string \<Rightarrow> string" where
  "Join [] sep = []"
| "Join [x] sep = x"
| "Join (x # y # ys) sep = x @ sep @ Join (y # ys) sep"

subsection \<open>strings.ReplaceAll\<close>

text \<open>
  \<^verbatim>\<open>utf8.DecodeRuneInString\<close>, the width it reports: the number of bytes of
  the UTF-8 sequence at the head of the string, 1 for a byte that starts no
  well-formed sequence, 0 for the empty string.
\<close>

definition contByte :: "nat \<Rightarrow> nat \<Rightarrow> char \<Rightarrow> bool" where
  "contByte lo hi c = (lo \<le> (of_char c :: nat) \<and> (of_char c :: nat) \<le> hi)"

definition runeWidth :: "string \<Rightarrow> nat" where
  "runeWidth s =
     (case s of
        [] \<Rightarrow> 0
      | s0 # rest \<Rightarrow>
          (let b = (of_char s0 :: nat) in
           if b < 194 then 1
           else if b \<le> 223 then
             (case rest of
                s1 # _ \<Rightarrow> if contByte 128 191 s1 then 2 else 1
              | _ \<Rightarrow> 1)
           else if b \<le> 239 then
             (case rest of
                s1 # s2 # _ \<Rightarrow>
                  if contByte (if b = 224 then 160 else 128) (if b = 237 then 159 else 191) s1
                     \<and> contByte 128 191 s2 then 3 else 1
              | _ \<Rightarrow> 1)
           else if b \<le> 244 then
             (case rest of
                s1 # s2 # s3 # _ \<Rightarrow>
                  if contByte (if b = 240 then 144 else 128) (if b = 244 then 143 else 191) s1
                     \<and> contByte 128 191 s2 \<and> contByte 128 191 s3 then 4 else 1
              | _ \<Rightarrow> 1)
           else 1))"

text \<open>
  An empty \<open>old\<close> matches before every UTF-8 sequence and at the end of the string;
  \<open>runeInsert\<close> writes \<open>new\<close> after each sequence.
\<close>

function runeInsert :: "string \<Rightarrow> string \<Rightarrow> string" where
  "runeInsert s new =
     (if s = [] then []
      else take (runeWidth s) s @ new @ runeInsert (drop (runeWidth s) s) new)"
  by pat_completeness auto
termination
  by (relation "measure (\<lambda>(s, new). length s)")
    (auto simp: runeWidth_def Let_def split: list.splits)

text \<open>
  A non-empty \<open>old\<close>: the string is read from the left; where \<open>old\<close> starts, \<open>new\<close>
  is written and reading goes on behind the occurrence, so occurrences do not
  overlap.
\<close>

function replaceScan :: "string \<Rightarrow> string \<Rightarrow> string \<Rightarrow> string" where
  "replaceScan s old new =
     (if s = [] then []
      else if old \<noteq> [] \<and> prefix old s
        then new @ replaceScan (drop (length old) s) old new
      else hd s # replaceScan (tl s) old new)"
  by pat_completeness auto
termination
  by (relation "measure (\<lambda>(s, old, new). length s)") auto

declare runeInsert.simps [simp del]
declare replaceScan.simps [simp del]

text \<open>
  The number of replacements that this reading makes: the occurrences of a
  non-empty \<open>old\<close> found from the left, none of them overlapping another.
\<close>

function occurrences :: "string \<Rightarrow> string \<Rightarrow> nat" where
  "occurrences s old =
     (if s = [] then 0
      else if old \<noteq> [] \<and> prefix old s
        then 1 + occurrences (drop (length old) s) old
      else occurrences (tl s) old)"
  by pat_completeness auto
termination
  by (relation "measure (\<lambda>(s, old). length s)") auto

declare occurrences.simps [simp del]

text \<open>
  \<^verbatim>\<open>strings.ReplaceAll(s, old, new)\<close>, that is \<^verbatim>\<open>Replace(s, old, new, -1)\<close>,
  which returns \<open>s\<close> itself when \<open>old == new\<close>.
\<close>

definition ReplaceAll :: "string \<Rightarrow> string \<Rightarrow> string \<Rightarrow> string" where
  "ReplaceAll s old new =
     (if old = new then s
      else if old = [] then new @ runeInsert s new
      else replaceScan s old new)"

subsection \<open>fmt.Sprintf\<close>

text \<open>A natural number in decimal digits, and \<^verbatim>\<open>%d\<close> of a signed integer.\<close>

fun decimal :: "nat \<Rightarrow> string" where
  "decimal n =
     (if n < 10 then [char_of (48 + n)]
      else decimal (n div 10) @ [char_of (48 + n mod 10)])"

declare decimal.simps [simp del]

definition formatInt :: "int \<Rightarrow> string" where
  "formatInt i = (if i < 0 then ''-'' @ decimal (nat (- i)) else decimal (nat i))"

section \<open>Values, errors and the database\<close>

text \<open>
  What \<^verbatim>\<open>rows.Scan\<close> stores into an \<^verbatim>\<open>interface{}\<close>: nil for SQL NULL, or
  one of the driver's value types. \<open>Other\<close> is a \<^verbatim>\<open>float64\<close> or a
  \<^verbatim>\<open>time.Time\<close>, kept as the text that \<^verbatim>\<open>%v\<close> prints for it.
\<close>

datatype go_value =
    Nil
  | Int64 "64 word"
  | Bool bool
  | Bytes string
  | Str string
  | Other string

text \<open>
  \<^verbatim>\<open>fmt.Sprintf("%v", v)\<close>. A byte slice is printed as the list of its bytes
  in decimal, \<^verbatim>\<open>[97 98 99]\<close>; a string is printed as it is.
\<close>

fun Sprintf_v :: "go_value \<Rightarrow> string" where
  "Sprintf_v Nil = ''<nil>''"
| "Sprintf_v (Int64 w) = formatInt (sint w)"
| "Sprintf_v (Bool b) = (if b then ''true'' else ''false'')"
| "Sprintf_v (Bytes bs) = ''['' @ Join (map (\<lambda>c. decimal (of_char c)) bs) '' '' @ '']''"
| "Sprintf_v (Str s) = s"
| "Sprintf_v (Other s) = s"

text \<open>\<^verbatim>\<open>convertToString\<close> of the variant with the \<^verbatim>\<open>-v\<close> flag.\<close>

fun convertToString :: "go_value \<Rightarrow> string" where
  "convertToString (Bytes v) = v"
| "convertToString (Str v) = v"
| "convertToString v = Sprintf_v v"

text \<open>
  A Go \<^verbatim>\<open>error\<close>: one that the driver or \<^verbatim>\<open>database/sql\<close> reports, with its
  message; the arity check of \<^verbatim>\<open>rows.Scan\<close> (columns of the cursor, destinations
  passed); and the one that \<^verbatim>\<open>updateRow\<close> makes with \<^verbatim>\<open>fmt.Errorf\<close>.
\<close>

datatype error =
    DriverError string
  | ErrScanArity nat nat
  | ErrNoValidWhere

fun errorText :: "error \<Rightarrow> string" where
  "errorText (DriverError msg) = msg"
| "errorText (ErrScanArity n m) =
     ''sql: expected '' @ decimal n @ '' destination arguments in Scan, not '' @ decimal m"
| "errorText ErrNoValidWhere = ''no valid WHERE clauses found''"

text \<open>The statements sent to the server, in the order they are sent.\<close>

datatype stmt =
    Query string
  | Exec string "go_value list"

text \<open>One row of \<^verbatim>\<open>DESCRIBE\<close>, as \<^verbatim>\<open>getTextColumns\<close> scans it.\<close>

record describe_row =
  field :: string
  typS :: string
  null_str :: string
  key :: string
  defaultVal :: go_value
  extra :: string

text \<open>
  The cursor of \<^verbatim>\<open>SELECT *\<close>: the result of \<^verbatim>\<open>rows.ColumnTypes()\<close> (the
  column names, or an error), and for every \<^verbatim>\<open>rows.Next()\<close> that succeeds what
  the driver delivers for that row (the values, or an error of \<^verbatim>\<open>rows.Scan\<close>).
\<close>

record rowset =
  ColumnTypes :: "error + string list"
  Scans :: "(error + go_value list) list"

text \<open>
  The server as the program sees it. An \<^verbatim>\<open>UPDATE\<close> may succeed or fail
  depending on everything sent before it.
\<close>

record database =
  Open :: "string \<Rightarrow> error option"
  ShowTables :: "error + (error + string) list"
  Describe :: "string \<Rightarrow> error + (error + describe_row) list"
  Select :: "string \<Rightarrow> error + rowset"
  ExecResult :: "stmt list \<Rightarrow> string \<Rightarrow> go_value list \<Rightarrow> error option"

section \<open>The program\<close>

subsection \<open>getTextColumns\<close>

text \<open>
  \<^verbatim>\<open>main.go\<close>, lines 160 to 188; the same function is in the variant with
  \<^verbatim>\<open>-v\<close>. A row of \<^verbatim>\<open>DESCRIBE\<close> that cannot be scanned ends the
  function with the error.
\<close>

definition isText :: "string \<Rightarrow> bool" where
  "isText t =
     (Contains (ToLower t) ''char'' \<or> Contains (ToLower t) ''text''
      \<or> Contains (ToLower t) ''varchar'')"

fun describeLoop :: "(error + describe_row) list \<Rightarrow> string list \<Rightarrow> error + string list" where
  "describeLoop [] columns = Inr columns"
| "describeLoop (Inl err # rest) columns = Inl err"
| "describeLoop (Inr d # rest) columns =
     describeLoop rest (if isText (typS d) then columns @ [field d] else columns)"

definition getTextColumns ::
  "database \<Rightarrow> string \<Rightarrow> stmt list \<Rightarrow> (error + string list) \<times> stmt list" where
  "getTextColumns db table hist =
     (let hist' = hist @ [Query (''DESCRIBE '' @ table)] in
      case Describe db table of
        Inl err \<Rightarrow> (Inl err, hist')
      | Inr rows \<Rightarrow> (describeLoop rows [], hist'))"

subsection \<open>updateRow\<close>

text \<open>
  \<^verbatim>\<open>main.go\<close>, lines 190 to 210. A statement that the server rejects has been
  sent all the same, so it is recorded in either case.
  \<^verbatim>\<open>columnTypes\<close> and \<^verbatim>\<open>values\<close> are parallel slices (\<^verbatim>\<open>values\<close> is made
  with \<^verbatim>\<open>len(columnTypes)\<close> entries), read here as the list of their pairs.
\<close>

fun whereLoop ::
  "(string \<times> go_value) list \<Rightarrow> string list \<times> go_value list \<Rightarrow> string list \<times> go_value list" where
  "whereLoop [] acc = acc"
| "whereLoop ((name, v) # rest) (whereClauses, whereArgs) =
     whereLoop rest
       (if v \<noteq> Nil then (whereClauses @ [name @ '' = ?''], whereArgs @ [v])
        else (whereClauses, whereArgs))"

definition updateRow ::
  "database \<Rightarrow> string \<Rightarrow> string list \<Rightarrow> go_value list \<Rightarrow> string list \<Rightarrow> go_value list
     \<Rightarrow> stmt list \<Rightarrow> error option \<times> stmt list" where
  "updateRow db table updates args columnTypes values hist =
     (case whereLoop (zip columnTypes values) ([], []) of
        (whereClauses, whereArgs) \<Rightarrow>
          if length whereClauses = 0 then (Some ErrNoValidWhere, hist)
          else
            (let allArgs = args @ whereArgs;
                 query = ''UPDATE '' @ table @ '' SET '' @ Join updates '', ''
                         @ '' WHERE '' @ Join whereClauses '' AND ''
             in (ExecResult db hist query allArgs, hist @ [Exec query allArgs])))"

subsection \<open>processTable\<close>

text \<open>
  \<^verbatim>\<open>main.go\<close>, lines 95 to 158. The Go function returns a pair, the count and
  the error; so does the model, next to the statements sent. The counter is a Go
  \<^verbatim>\<open>int\<close> of 64 bits that grows by one at a time from 0, an \<^typ>\<open>int\<close> here.

  The two source files differ in how a value is turned into a string
  (\<^verbatim>\<open>fmt.Sprintf("%v", values[i])\<close> in \<^verbatim>\<open>main.go\<close>, \<^verbatim>\<open>convertToString\<close> in
  the variant with \<^verbatim>\<open>-v\<close>) and in the lines the latter logs. The loops are
  written once, with that conversion as the parameter \<open>render\<close>; what
  \<^verbatim>\<open>processTable\<close> logs under \<^verbatim>\<open>-v\<close> is not kept.
\<close>

record pending =
  updates :: "string list"
  args :: "go_value list"
  hasChanges :: bool
  totalReplacements :: int

text \<open>The inner loop: the first column of the row named \<open>col\<close>, then \<^verbatim>\<open>break\<close>.\<close>

fun matchLoop ::
  "(go_value \<Rightarrow> string) \<Rightarrow> string \<Rightarrow> string \<Rightarrow> string \<Rightarrow> (string \<times> go_value) list
     \<Rightarrow> pending \<Rightarrow> pending" where
  "matchLoop render search replace col [] p = p"
| "matchLoop render search replace col ((name, v) # rest) p =
     (if name = col then
        (if v \<noteq> Nil then
           (let strValue = render v;
                newValue = ReplaceAll strValue search replace
            in if newValue \<noteq> strValue
               then p\<lparr>updates := updates p @ [col @ '' = ?''],
                      args := args p @ [Str newValue],
                      hasChanges := True,
                      totalReplacements := totalReplacements p + 1\<rparr>
               else p)
         else p)
      else matchLoop render search replace col rest p)"

fun columnsLoop ::
  "(go_value \<Rightarrow> string) \<Rightarrow> string \<Rightarrow> string \<Rightarrow> string list \<Rightarrow> (string \<times> go_value) list
     \<Rightarrow> pending \<Rightarrow> pending" where
  "columnsLoop render search replace [] row p = p"
| "columnsLoop render search replace (col # columns) row p =
     columnsLoop render search replace columns row (matchLoop render search replace col row p)"

text \<open>
  \<^verbatim>\<open>rows.Scan(valuePtrs...)\<close> with \<open>n\<close> destinations: the driver's error, or the
  error of \<^verbatim>\<open>database/sql\<close> when the row has another number of columns.
\<close>

definition Scan :: "nat \<Rightarrow> error + go_value list \<Rightarrow> error + go_value list" where
  "Scan n r =
     (case r of
        Inl err \<Rightarrow> Inl err
      | Inr vs \<Rightarrow> if length vs = n then Inr vs else Inl (ErrScanArity (length vs) n))"

text \<open>The body of \<^verbatim>\<open>for rows.Next()\<close> for one row, and the loop.\<close>

definition processRow ::
  "(go_value \<Rightarrow> string) \<Rightarrow> database \<Rightarrow> string \<Rightarrow> string \<Rightarrow> string \<Rightarrow> string list \<Rightarrow> string list
     \<Rightarrow> go_value list \<Rightarrow> int \<Rightarrow> stmt list \<Rightarrow> (int \<times> error option) \<times> stmt list" where
  "processRow render db table search replace columns columnTypes values tot hist =
     (let p = columnsLoop render search replace columns (zip columnTypes values)
                \<lparr>updates = [], args = [], hasChanges = False, totalReplacements = tot\<rparr>
      in if hasChanges p then
           (case updateRow db table (updates p) (args p) columnTypes values hist of
              (Some err, hist') \<Rightarrow> ((0, Some err), hist')
            | (None, hist') \<Rightarrow> ((totalReplacements p, None), hist'))
         else ((totalReplacements p, None), hist))"

fun rowsLoop ::
  "(go_value \<Rightarrow> string) \<Rightarrow> database \<Rightarrow> string \<Rightarrow> string \<Rightarrow> string \<Rightarrow> string list \<Rightarrow> string list
     \<Rightarrow> (error + go_value list) list \<Rightarrow> int \<Rightarrow> stmt list \<Rightarrow> (int \<times> error option) \<times> stmt list" where
  "rowsLoop render db table search replace columns columnTypes [] tot hist =
     ((tot, None), hist)"
| "rowsLoop render db table search replace columns columnTypes (r # rest) tot hist =
     (case Scan (length columnTypes) r of
        Inl err \<Rightarrow> ((0, Some err), hist)
      | Inr values \<Rightarrow>
          (case processRow render db table search replace columns columnTypes values tot hist of
             ((n, Some err), hist') \<Rightarrow> ((0, Some err), hist')
           | ((n, None), hist') \<Rightarrow>
               rowsLoop render db table search replace columns columnTypes rest n hist'))"

definition processTableWith ::
  "(go_value \<Rightarrow> string) \<Rightarrow> database \<Rightarrow> string \<Rightarrow> string \<Rightarrow> string \<Rightarrow> stmt list
     \<Rightarrow> (int \<times> error option) \<times> stmt list" where
  "processTableWith render db table search replace hist =
     (case getTextColumns db table hist of
        (Inl err, h1) \<Rightarrow> ((0, Some err), h1)
      | (Inr columns, h1) \<Rightarrow>
          if length columns = 0 then ((0, None), h1)
          else
            (let h2 = h1 @ [Query (''SELECT * FROM '' @ table)] in
             case Select db table of
               Inl err \<Rightarrow> ((0, Some err), h2)
             | Inr rows \<Rightarrow>
                 (case ColumnTypes rows of
                    Inl err \<Rightarrow> ((0, Some err), h2)
                  | Inr columnTypes \<Rightarrow>
                      rowsLoop render db table search replace columns columnTypes
                        (Scans rows) 0 h2)))"

text \<open>\<^verbatim>\<open>processTable\<close> of \<^verbatim>\<open>main.go\<close>, and of the variant with \<^verbatim>\<open>-v\<close>.\<close>

definition processTable ::
  "database \<Rightarrow> string \<Rightarrow> string \<Rightarrow> string \<Rightarrow> stmt list \<Rightarrow> (int \<times> error option) \<times> stmt list" where
  "processTable = processTableWith Sprintf_v"

definition processTable_v ::
  "database \<Rightarrow> string \<Rightarrow> string \<Rightarrow> string \<Rightarrow> stmt list \<Rightarrow> (int \<times> error option) \<times> stmt list" where
  "processTable_v = processTableWith convertToString"

subsection \<open>main\<close>

text \<open>
  \<^verbatim>\<open>main.go\<close>, lines 23 to 93. The flags are given as the \<^verbatim>\<open>Config\<close> that
  \<^verbatim>\<open>parseFlags\<close> fills; its check of the required flags is the first step of
  \<open>mainWith\<close>.
\<close>

record Config =
  Host :: string
  Port :: int
  User :: string
  Password :: string
  Database :: string
  Search :: string
  Replace :: string

record ConfigV = Config +
  Verbose :: bool

text \<open>
  What a run leaves behind: the sum of the per-table counts, the lines written
  with \<^verbatim>\<open>log.Printf\<close> by \<^verbatim>\<open>main\<close>, and the statements sent.
\<close>

record run =
  grandTotal :: int
  logs :: "string list"
  sent :: "stmt list"

text \<open>\<^verbatim>\<open>log.Fatal\<close> ends the process at once; otherwise \<^verbatim>\<open>main\<close> returns.\<close>

datatype outcome =
    Fatal string
  | Returned run

fun tablesScan :: "(error + string) list \<Rightarrow> string list \<Rightarrow> error + string list" where
  "tablesScan [] tables = Inr tables"
| "tablesScan (Inl err # rest) tables = Inl err"
| "tablesScan (Inr table # rest) tables = tablesScan rest (tables @ [table])"

definition getTables :: "database \<Rightarrow> stmt list \<Rightarrow> (error + string list) \<times> stmt list" where
  "getTables db hist =
     (let hist' = hist @ [Query ''SHOW TABLES''] in
      case ShowTables db of
        Inl err \<Rightarrow> (Inl err, hist')
      | Inr rows \<Rightarrow> (tablesScan rows [], hist'))"

definition connectDB :: "database \<Rightarrow> 'a Config_scheme \<Rightarrow> error option" where
  "connectDB db config =
     Open db (User config @ '':'' @ Password config @ ''@tcp('' @ Host config @ '':''
              @ formatInt (Port config) @ '')/'' @ Database config)"

text \<open>
  What the loop of \<^verbatim>\<open>main\<close> does with the pair that \<^verbatim>\<open>processTable\<close>
  returned: an error is logged and the loop goes on with the next table.
\<close>

definition handleResult :: "bool \<Rightarrow> string \<Rightarrow> int \<times> error option \<Rightarrow> run \<Rightarrow> run" where
  "handleResult verbose table r st =
     (case r of
        (replacements, Some err) \<Rightarrow>
          st\<lparr>logs := logs st @ [''Error processing table '' @ table @ '': '' @ errorText err]\<rparr>
      | (replacements, None) \<Rightarrow>
          st\<lparr>grandTotal := grandTotal st + replacements,
             logs := logs st @
               (if replacements > 0 \<or> verbose
                then [''Table '' @ table @ '': '' @ formatInt replacements @ '' replacements'']
                else [])\<rparr>)"

fun tablesLoop ::
  "(go_value \<Rightarrow> string) \<Rightarrow> bool \<Rightarrow> database \<Rightarrow> string \<Rightarrow> string \<Rightarrow> string list \<Rightarrow> run \<Rightarrow> run" where
  "tablesLoop render verbose db search replace [] st = st"
| "tablesLoop render verbose db search replace (table # rest) st =
     (case processTableWith render db table search replace (sent st) of
        (r, hist') \<Rightarrow>
          tablesLoop render verbose db search replace rest
            (handleResult verbose table r (st\<lparr>sent := hist'\<rparr>)))"

definition mainWith ::
  "(go_value \<Rightarrow> string) \<Rightarrow> bool \<Rightarrow> 'a Config_scheme \<Rightarrow> database \<Rightarrow> outcome" where
  "mainWith render verbose config db =
     (if User config = [] \<or> Database config = [] \<or> Search config = []
      then Fatal ''-user, -database, and -search are required''
      else
        (case connectDB db config of
           Some err \<Rightarrow> Fatal (''Failed to connect to database: '' @ errorText err)
         | None \<Rightarrow>
             (case getTables db [] of
                (Inl err, hist) \<Rightarrow> Fatal (''Failed to get tables: '' @ errorText err)
              | (Inr tables, hist) \<Rightarrow>
                  (let st = tablesLoop render verbose db (Search config) (Replace config) tables
                              \<lparr>grandTotal = 0,
                               logs = (if verbose
                                       then [''Found '' @ formatInt (int (length tables))
                                             @ '' tables to process'']
                                       else []),
                               sent = hist\<rparr>
                   in Returned
                        (st\<lparr>logs := logs st
                              @ [''Total replacements: '' @ formatInt (grandTotal st)]\<rparr>)))))"


definition main_v :: "ConfigV \<Rightarrow> database \<Rightarrow> outcome" where
  "main_v config db = mainWith convertToString (Verbose config) config db"

section \<open>Notions used in the statements\<close>

text \<open>
  A row is the list of its columns, name and value, in the order of the cursor.
  The engine looks a column up by name and takes the first one so named, which is
  what \<^const>\<open>map_of\<close> returns.

  \<open>changed\<close>: the column \<open>col\<close> is in the row, its value is not null, and the
  replacement alters the rendered value. \<open>newValueOf\<close> is then the argument that
  goes with its assignment.
\<close>

definition changed ::
  "(go_value \<Rightarrow> string) \<Rightarrow> string \<Rightarrow> string \<Rightarrow> (string \<times> go_value) list \<Rightarrow> string \<Rightarrow> bool" where
  "changed render search replace row col =
     (case map_of row col of
        None \<Rightarrow> False
      | Some v \<Rightarrow> v \<noteq> Nil \<and> ReplaceAll (render v) search replace \<noteq> render v)"

definition newValueOf ::
  "(go_value \<Rightarrow> string) \<Rightarrow> string \<Rightarrow> string \<Rightarrow> (string \<times> go_value) list \<Rightarrow> string \<Rightarrow> go_value" where
  "newValueOf render search replace row col =
     (case map_of row col of
        None \<Rightarrow> Nil
      | Some v \<Rightarrow> Str (ReplaceAll (render v) search replace))"


text \<open>A parameterized assignment or equality predicate, and the columns that are not null.\<close>

definition placeholder :: "string \<Rightarrow> string" where
  "placeholder name = name @ '' = ?''"

definition nonNull :: "(string \<times> go_value) list \<Rightarrow> (string \<times> go_value) list" where
  "nonNull row = filter (\<lambda>(name, v). v \<noteq> Nil) row"

section \<open>Example databases\<close>

text \<open>
  A database with the table \<open>users (id int, bio varchar)\<close> and a table \<open>broken\<close>
  that cannot be described. The rows of \<open>users\<close> are given; whether an
  \<^verbatim>\<open>UPDATE\<close> succeeds is given by the number of statements sent before it.
\<close>

definition users_columns :: "describe_row list" where
  "users_columns =
     [\<lparr>field = ''id'', typS = ''int(11)'', null_str = ''NO'', key = ''PRI'',
        defaultVal = Nil, extra = ''auto_increment''\<rparr>,
      \<lparr>field = ''bio'', typS = ''varchar(255)'', null_str = ''YES'', key = [],
        defaultVal = Nil, extra = []\<rparr>]"

definition users_db :: "go_value list list \<Rightarrow> (nat \<Rightarrow> error option) \<Rightarrow> database" where
  "users_db rows execAt =
     \<lparr>Open = (\<lambda>dsn. None),
      ShowTables = Inr [Inr ''broken'', Inr ''users''],
      Describe = (\<lambda>table. if table = ''users'' then Inr (map Inr users_columns)
                           else Inl (DriverError ''Table broken does not exist'')),
      Select = (\<lambda>table. Inr \<lparr>ColumnTypes = Inr [''id'', ''bio''], Scans = map Inr rows\<rparr>),
      ExecResult = (\<lambda>hist query args. execAt (length hist))\<rparr>"

definition mixed_columns :: "describe_row list" where
  "mixed_columns =
     [\<lparr>field = ''id'', typS = ''bigint(20)'', null_str = ''NO'', key = ''PRI'',
        defaultVal = Nil, extra = []\<rparr>,
      \<lparr>field = ''name'', typS = ''VARCHAR(20)'', null_str = ''NO'', key = ''UNI'',
        defaultVal = Str ''x'', extra = []\<rparr>,
      \<lparr>field = ''body'', typS = ''LongText'', null_str = ''YES'', key = [],
        defaultVal = Nil, extra = []\<rparr>,
      \<lparr>field = ''seen'', typS = ''datetime'', null_str = ''YES'', key = [],
        defaultVal = Nil, extra = []\<rparr>,
      \<lparr>field = ''code'', typS = ''char(2)'', null_str = ''NO'', key = [],
        defaultVal = Nil, extra = []\<rparr>]"

definition mixed_db :: database where
  "mixed_db = (users_db [] (\<lambda>k. None))\<lparr>Describe := (\<lambda>table. Inr (map Inr mixed_columns))\<rparr>"


text \<open>A row with a null column, and the state before the first classified column.\<close>

definition row0 :: "(string \<times> go_value) list" where
  "row0 = [(''id'', Int64 7), (''note'', Nil), (''bio'', Str ''aXbXc''), (''tag'', Str ''plain'')]"

definition pending0 :: pending where
  "pending0 = \<lparr>updates = [], args = [], hasChanges = False, totalReplacements = 0\<rparr>"

text \<open>
  The row \<open>(1, "visit old.site.com now")\<close> with the text as a string and as the
  byte slice that the driver delivers; two rows of which the second
  \<^verbatim>\<open>UPDATE\<close> fails; and a run that has sent nothing yet.
\<close>

definition site_db :: database where
  "site_db = users_db [[Int64 1, Str ''visit old.site.com now'']] (\<lambda>k. None)"

definition bytes_db :: database where
  "bytes_db = users_db [[Int64 1, Bytes ''visit old.site.com now'']] (\<lambda>k. None)"

definition flaky_db :: database where
  "flaky_db =
     users_db [[Int64 1, Str ''old a''], [Int64 2, Str ''old b'']]
       (\<lambda>k. if k = 2 then None else Some (DriverError ''Lock wait timeout exceeded''))"


definition run0 :: run where
  "run0 = \<lparr>grandTotal = 0, logs = [], sent = []\<rparr>"






text \<open>A table without a text column.\<close>

definition numbers_db :: database where
  "numbers_db =
     (users_db [[Int64 1, Int64 10]] (\<lambda>k. None))
       \<lparr>Describe := (\<lambda>table. Inr [Inr \<lparr>field = ''id'', typS = ''int(11)'', null_str = ''NO'',
                                       key = ''PRI'', defaultVal = Nil, extra = []\<rparr>,
                                    Inr \<lparr>field = ''n'', typS = ''DECIMAL(10,2)'', null_str = ''YES'',
                                       key = [], defaultVal = Nil, extra = []\<rparr>])\<rparr>"

section \<open>The Column Classifier\<close>

lemma describeLoop_all_scanned:
  "describeLoop (map Inr ds) columns = Inr (columns @ map field (filter (\<lambda>d. isText (typS d)) ds))"
  by (induction ds arbitrary: columns) auto

lemma classified_from_pairs:
  "map field (filter (\<lambda>d. isText (typS d)) ds) =
     map fst (filter (\<lambda>(f, t). isText t) (map (\<lambda>d. (field d, typS d)) ds))"
  by (induction ds) auto

text \<open>
  Claim C8. When every row of \<^verbatim>\<open>DESCRIBE\<close> is scanned, \<^verbatim>\<open>getTextColumns\<close>
  returns the names of exactly the columns whose lower-cased type contains
  \<open>char\<close>, \<open>text\<close> or \<open>varchar\<close>, in the order of the rows; descriptors with the
  same names and types, whatever their other fields, give the same list.
\<close>

theorem getTextColumns_classifies:
  assumes "Describe db table = Inr (map Inr ds)"
  shows "fst (getTextColumns db table hist) =
           Inr (map field
                  (filter (\<lambda>d. Contains (ToLower (typS d)) ''char''
                              \<or> Contains (ToLower (typS d)) ''text''
                              \<or> Contains (ToLower (typS d)) ''varchar'') ds))
         \<and> (\<forall>db' table' hist' ds'.
               Describe db' table' = Inr (map Inr ds')
               \<and> map (\<lambda>d. (field d, typS d)) ds' = map (\<lambda>d. (field d, typS d)) ds
               \<longrightarrow> fst (getTextColumns db' table' hist') = fst (getTextColumns db table hist))"
proof -
  have out: "fst (getTextColumns d t h) = Inr (map field (filter (\<lambda>d. isText (typS d)) xs))"
    if "Describe d t = Inr (map Inr xs)" for d t h xs
    using that by (simp add: getTextColumns_def Let_def describeLoop_all_scanned)
  have "fst (getTextColumns db table hist) = Inr (map field (filter (\<lambda>d. isText (typS d)) ds))"
    using assms by (rule out)
  moreover have "fst (getTextColumns db' table' hist') = fst (getTextColumns db table hist)"
    if "Describe db' table' = Inr (map Inr ds')"
      and "map (\<lambda>d. (field d, typS d)) ds' = map (\<lambda>d. (field d, typS d)) ds"
    for db' table' hist' ds'
    using that assms by (simp add: out classified_from_pairs)
  ultimately show ?thesis
    by (simp add: isText_def)
qed

theorem getTextColumns_classifies_witness:
  "Describe mixed_db ''notes'' = Inr (map Inr mixed_columns)
   \<and> fst (getTextColumns mixed_db ''notes'' []) = Inr [''name'', ''body'', ''code'']"
proof -
  have h: "Describe mixed_db ''notes'' = Inr (map Inr mixed_columns)"
    by (simp add: mixed_db_def)
  have v: "map field
             (filter (\<lambda>d. Contains (ToLower (typS d)) ''char''
                         \<or> Contains (ToLower (typS d)) ''text''
                         \<or> Contains (ToLower (typS d)) ''varchar'') mixed_columns)
           = [''name'', ''body'', ''code'']"
    by code_simp
  from getTextColumns_classifies [OF h, of "[]"] have
    "fst (getTextColumns mixed_db ''notes'' []) =
       Inr (map field
              (filter (\<lambda>d. Contains (ToLower (typS d)) ''char''
                          \<or> Contains (ToLower (typS d)) ''text''
                          \<or> Contains (ToLower (typS d)) ''varchar'') mixed_columns))"
    by (rule conjunct1)
  with v h show ?thesis
    by simp
qed

section \<open>A table without text columns\<close>

text \<open>
  Claim C9. When the Column Classifier returns the empty list for a table,
  \<^verbatim>\<open>processTable\<close> (of either source file) sends nothing after the
  \<^verbatim>\<open>DESCRIBE\<close>, so no \<^verbatim>\<open>SELECT\<close> and no \<^verbatim>\<open>UPDATE\<close>, and returns the
  count 0 and no error.
\<close>

theorem no_text_columns_no_scan:
  assumes "fst (getTextColumns db table hist) = Inr []"
  shows "processTableWith render db table search replace hist =
           ((0, None), hist @ [Query (''DESCRIBE '' @ table)])"
proof -
  have "snd (getTextColumns db table hist) = hist @ [Query (''DESCRIBE '' @ table)]"
    by (simp add: getTextColumns_def Let_def split: sum.splits)
  with assms have "getTextColumns db table hist = (Inr [], hist @ [Query (''DESCRIBE '' @ table)])"
    by (simp add: prod_eq_iff)
  then show ?thesis
    by (simp add: processTableWith_def)
qed

theorem no_text_columns_no_scan_witness:
  "fst (getTextColumns numbers_db ''numbers'' []) = Inr []
   \<and> processTableWith Sprintf_v numbers_db ''numbers'' ''1'' ''2'' [] =
       ((0, None), [Query ''DESCRIBE numbers''])"
proof -
  have h: "fst (getTextColumns numbers_db ''numbers'' []) = Inr []"
    by code_simp
  from no_text_columns_no_scan [OF h, of Sprintf_v "''1''" "''2''"] h
  show ?thesis by simp
qed

section \<open>One row\<close>

lemma whereLoop_eq:
  "whereLoop row (wc, wa) =
     (wc @ map (placeholder \<circ> fst) (nonNull row), wa @ map snd (nonNull row))"
  by (induction row arbitrary: wc wa) (auto simp: nonNull_def placeholder_def)

lemma matchLoop_eq:
  "matchLoop render search replace col row p =
     (if changed render search replace row col
      then p\<lparr>updates := updates p @ [placeholder col],
             args := args p @ [newValueOf render search replace row col],
             hasChanges := True,
             totalReplacements := totalReplacements p + 1\<rparr>
      else p)"
  by (induction row) (auto simp: changed_def newValueOf_def placeholder_def Let_def)

lemma columnsLoop_eq:
  "columnsLoop render search replace columns row p =
     p\<lparr>updates := updates p @ map placeholder (filter (changed render search replace row) columns),
       args := args p @ map (newValueOf render search replace row)
                 (filter (changed render search replace row) columns),
       hasChanges := (hasChanges p \<or> filter (changed render search replace row) columns \<noteq> []),
       totalReplacements := totalReplacements p
          + int (length (filter (changed render search replace row) columns))\<rparr>"
  by (induction columns arbitrary: p) (auto simp: matchLoop_eq)

lemma changed_nonNull:
  assumes "changed render search replace row col"
  shows "nonNull row \<noteq> []"
proof -
  from assms obtain v where "map_of row col = Some v" "v \<noteq> Nil"
    by (auto simp: changed_def split: option.splits)
  then have "(col, v) \<in> set (nonNull row)"
    by (auto simp: nonNull_def dest: map_of_SomeD)
  then show ?thesis by auto
qed

lemma processRow_eq:
  "processRow render db table search replace columns columnTypes values tot hist =
     (let row = zip columnTypes values;
          ch = filter (changed render search replace row) columns;
          query = ''UPDATE '' @ table @ '' SET '' @ Join (map placeholder ch) '', ''
                  @ '' WHERE '' @ Join (map (placeholder \<circ> fst) (nonNull row)) '' AND '';
          allArgs = map (newValueOf render search replace row) ch @ map snd (nonNull row)
      in if ch = [] then ((tot, None), hist)
         else
           (case ExecResult db hist query allArgs of
              Some err \<Rightarrow> ((0, Some err), hist @ [Exec query allArgs])
            | None \<Rightarrow> ((tot + int (length ch), None), hist @ [Exec query allArgs])))"
proof (cases "filter (changed render search replace (zip columnTypes values)) columns = []")
  case True
  then show ?thesis
    by (simp add: processRow_def columnsLoop_eq Let_def)
next
  case False
  then obtain c where "changed render search replace (zip columnTypes values) c"
    by (auto simp: filter_empty_conv)
  then have "nonNull (zip columnTypes values) \<noteq> []"
    by (rule changed_nonNull)
  with False show ?thesis
    by (simp add: processRow_def columnsLoop_eq Let_def updateRow_def whereLoop_eq
        split: option.splits)
qed

lemma placeholder_inj: "placeholder a = placeholder b \<longleftrightarrow> a = b"
  by (simp add: placeholder_def)






text \<open>
  Claim C4. A column whose value is null adds no predicate and no argument to
  the WHERE clause: the clause is the one of the row without that column. When
  the column that the engine finds under a classified name is null, nothing is
  replaced and nothing becomes pending. In a row with distinct column names, as
  the rows of a table are, the name of a null column is therefore neither in the
  SET clause nor in the WHERE clause.
\<close>

theorem null_columns_skipped:
  "whereLoop (before @ (name, Nil) # after) acc = whereLoop (before @ after) acc
   \<and> Nil \<notin> set (snd (whereLoop row ([], [])))
   \<and> (map_of row name = Some Nil \<longrightarrow> matchLoop render search replace name row p = p)
   \<and> (distinct (map fst row) \<and> (name, Nil) \<in> set row \<longrightarrow>
        map_of row name = Some Nil
        \<and> placeholder name \<notin> set (updates (columnsLoop render search replace columns row
              \<lparr>updates = [], args = [], hasChanges = False, totalReplacements = tot\<rparr>))
        \<and> placeholder name \<notin> set (fst (whereLoop row ([], []))))"
proof -
  have 1: "whereLoop (before @ (name, Nil) # after) acc = whereLoop (before @ after) acc"
    by (cases acc) (simp add: whereLoop_eq nonNull_def)
  have 2: "Nil \<notin> set (snd (whereLoop row ([], [])))"
    by (auto simp: whereLoop_eq nonNull_def)
  have 3: "matchLoop render search replace name row p = p" if "map_of row name = Some Nil"
    using that by (simp add: matchLoop_eq changed_def)
  have 4: "map_of row name = Some Nil
        \<and> placeholder name \<notin> set (updates (columnsLoop render search replace columns row
              \<lparr>updates = [], args = [], hasChanges = False, totalReplacements = tot\<rparr>))
        \<and> placeholder name \<notin> set (fst (whereLoop row ([], [])))"
    if d: "distinct (map fst row)" and m: "(name, Nil) \<in> set row"
  proof -
    from d m have a: "map_of row name = Some Nil"
      by (rule map_of_is_SomeI)
    then have "\<not> changed render search replace row name"
      by (simp add: changed_def)
    then have b: "placeholder name \<notin> set (updates (columnsLoop render search replace columns row
              \<lparr>updates = [], args = [], hasChanges = False, totalReplacements = tot\<rparr>))"
      by (auto simp: columnsLoop_eq placeholder_inj)
    have c: "placeholder name \<notin> set (fst (whereLoop row ([], [])))"
    proof
      assume "placeholder name \<in> set (fst (whereLoop row ([], [])))"
      then obtain v where "(name, v) \<in> set row" "v \<noteq> Nil"
        by (auto simp: whereLoop_eq nonNull_def placeholder_inj)
      with d m show False
        by (auto dest: eq_key_imp_eq_value)
    qed
    from a b c show ?thesis by simp
  qed
  from 1 2 3 4 show ?thesis by blast
qed

theorem null_columns_skipped_witness:
  "distinct (map fst row0) \<and> (''note'', Nil) \<in> set row0
   \<and> map_of row0 ''note'' = Some Nil
   \<and> matchLoop Sprintf_v ''a'' ''b'' ''note'' row0 pending0 = pending0
   \<and> updates (columnsLoop Sprintf_v ''a'' ''b'' [''note'', ''tag'', ''bio''] row0 pending0)
       = [''tag = ?'', ''bio = ?'']
   \<and> whereLoop row0 ([], [])
       = ([''id = ?'', ''bio = ?'', ''tag = ?''], [Int64 7, Str ''aXbXc'', Str ''plain''])
   \<and> whereLoop ([(''id'', Int64 7)] @ (''note'', Nil) # [(''bio'', Str ''aXbXc'')]) ([], [])
       = whereLoop ([(''id'', Int64 7)] @ [(''bio'', Str ''aXbXc'')]) ([], [])"
proof -
  note inst = null_columns_skipped [where row = row0 and name = "''note''" and render = Sprintf_v
      and search = "''a''" and replace = "''b''" and p = pending0
      and before = "[(''id'', Int64 7)]" and after = "[(''bio'', Str ''aXbXc'')]"
      and acc = "([], [])"]
  have d: "distinct (map fst row0)" by (simp add: row0_def)
  have n: "(''note'', Nil) \<in> set row0" by (simp add: row0_def)
  from inst d n have m: "map_of row0 ''note'' = Some Nil"
    by blast
  with inst have k: "matchLoop Sprintf_v ''a'' ''b'' ''note'' row0 pending0 = pending0"
    by blast
  have u: "updates (columnsLoop Sprintf_v ''a'' ''b'' [''note'', ''tag'', ''bio''] row0 pending0)
       = [''tag = ?'', ''bio = ?'']" by code_simp
  have w: "whereLoop row0 ([], [])
       = ([''id = ?'', ''bio = ?'', ''tag = ?''], [Int64 7, Str ''aXbXc'', Str ''plain''])"
    by code_simp
  from inst have r: "whereLoop ([(''id'', Int64 7)] @ (''note'', Nil) # [(''bio'', Str ''aXbXc'')]) ([], [])
       = whereLoop ([(''id'', Int64 7)] @ [(''bio'', Str ''aXbXc'')]) ([], [])"
    by blast
  from d n m k u w r show ?thesis by (intro conjI)
qed

text \<open>
  Claim C5. For one scanned row \<^verbatim>\<open>processTable\<close> sends either nothing or exactly
  one \<^verbatim>\<open>UPDATE\<close>; it sends one exactly when the replacement alters some
  classified column of the row, and otherwise leaves the count as it was.
\<close>

theorem one_update_per_changed_row:
  "((\<exists>col \<in> set columns. changed render search replace (zip columnTypes values) col) \<longrightarrow>
      (\<exists>query allArgs.
         snd (processRow render db table search replace columns columnTypes values tot hist)
           = hist @ [Exec query allArgs]))
   \<and> (\<not> (\<exists>col \<in> set columns. changed render search replace (zip columnTypes values) col) \<longrightarrow>
        processRow render db table search replace columns columnTypes values tot hist
          = ((tot, None), hist))"
  by (auto simp: processRow_eq Let_def filter_empty_conv split: option.splits)

theorem one_update_per_changed_row_witness:
  "changed Sprintf_v ''old.site.com'' ''new.site.com''
     (zip [''id'', ''bio''] [Int64 1, Str ''visit old.site.com now'']) ''bio''
   \<and> (\<exists>query allArgs.
         snd (processRow Sprintf_v site_db ''users'' ''old.site.com'' ''new.site.com'' [''bio'']
                [''id'', ''bio''] [Int64 1, Str ''visit old.site.com now''] 0 [])
           = [] @ [Exec query allArgs])
   \<and> \<not> changed Sprintf_v ''absent'' ''new.site.com''
         (zip [''id'', ''bio''] [Int64 1, Str ''visit old.site.com now'']) ''bio''
   \<and> processRow Sprintf_v site_db ''users'' ''absent'' ''new.site.com'' [''bio'']
        [''id'', ''bio''] [Int64 1, Str ''visit old.site.com now''] 0 [] = ((0, None), [])"
proof -
  let ?row = "zip [''id'', ''bio''] [Int64 1, Str ''visit old.site.com now'']"
  have c: "changed Sprintf_v ''old.site.com'' ''new.site.com'' ?row ''bio''"
    by code_simp
  have n: "\<not> changed Sprintf_v ''absent'' ''new.site.com'' ?row ''bio''"
    by code_simp
  from c have 1: "\<exists>col \<in> set [''bio'']. changed Sprintf_v ''old.site.com'' ''new.site.com'' ?row col"
    by simp
  from n have 2: "\<not> (\<exists>col \<in> set [''bio'']. changed Sprintf_v ''absent'' ''new.site.com'' ?row col)"
    by simp
  from one_update_per_changed_row [of "[''bio'']" Sprintf_v "''old.site.com''" "''new.site.com''"
      "[''id'', ''bio'']" "[Int64 1, Str ''visit old.site.com now'']" site_db "''users''" 0 "[]"] 1
  have a: "\<exists>query allArgs.
         snd (processRow Sprintf_v site_db ''users'' ''old.site.com'' ''new.site.com'' [''bio'']
                [''id'', ''bio''] [Int64 1, Str ''visit old.site.com now''] 0 [])
           = [] @ [Exec query allArgs]"
    by blast
  from one_update_per_changed_row [of "[''bio'']" Sprintf_v "''absent''" "''new.site.com''"
      "[''id'', ''bio'']" "[Int64 1, Str ''visit old.site.com now'']" site_db "''users''" 0 "[]"] 2
  have b: "processRow Sprintf_v site_db ''users'' ''absent'' ''new.site.com'' [''bio'']
        [''id'', ''bio''] [Int64 1, Str ''visit old.site.com now''] 0 [] = ((0, None), [])"
    by blast
  from c n a b show ?thesis by blast
qed

text \<open>
  Claim C6. When the replacement alters some classified column of a row, the
  statement sent is \<^verbatim>\<open>UPDATE table SET ... WHERE ...\<close> with one assignment
  \<open>col = ?\<close> for each altered classified column, joined by commas, and one
  predicate \<open>name = ?\<close> for each column of the row that is not null, altered ones
  included, joined by \<open>AND\<close>; its arguments are the new values of the altered
  columns followed by the original values of the columns that are not null.
\<close>

theorem update_statement_shape:
  assumes "ch = filter (changed render search replace (zip columnTypes values)) columns"
    and "ch \<noteq> []"
  shows "snd (processRow render db table search replace columns columnTypes values tot hist) =
           hist @
           [Exec (''UPDATE '' @ table
                  @ '' SET '' @ Join (map (\<lambda>col. col @ '' = ?'') ch) '', ''
                  @ '' WHERE ''
                  @ Join (map (\<lambda>(name, v). name @ '' = ?'') (nonNull (zip columnTypes values)))
                      '' AND '')
                 (map (newValueOf render search replace (zip columnTypes values)) ch
                  @ map snd (nonNull (zip columnTypes values)))]"
proof -
  have w: "map (\<lambda>(name, v). name @ '' = ?'') xs = map (placeholder \<circ> fst) xs"
    for xs :: "(string \<times> go_value) list"
    by (induction xs) (auto simp: placeholder_def)
  have s: "map (\<lambda>col. col @ '' = ?'') xs = map placeholder xs" for xs
    by (simp add: placeholder_def)
  from assms have ne: "filter (changed render search replace (zip columnTypes values)) columns \<noteq> []"
    by simp
  show ?thesis
    unfolding assms(1) w s using ne
    by (simp add: processRow_eq Let_def split: option.splits)
qed

theorem update_statement_shape_witness:
  "[''bio''] = filter (changed Sprintf_v ''old.site.com'' ''new.site.com''
                 (zip [''id'', ''bio''] [Int64 1, Str ''visit old.site.com now''])) [''bio'']
   \<and> snd (processRow Sprintf_v site_db ''users'' ''old.site.com'' ''new.site.com'' [''bio'']
            [''id'', ''bio''] [Int64 1, Str ''visit old.site.com now''] 0 [])
       = [Exec ''UPDATE users SET bio = ? WHERE id = ? AND bio = ?''
            [Str ''visit new.site.com now'', Int64 1, Str ''visit old.site.com now'']]"
proof -
  let ?row = "zip [''id'', ''bio''] [Int64 1, Str ''visit old.site.com now'']"
  have f: "[''bio''] = filter (changed Sprintf_v ''old.site.com'' ''new.site.com'' ?row) [''bio'']"
    by code_simp
  have ne: "[''bio''] \<noteq> ([] :: string list)" by simp
  have q: "''UPDATE '' @ ''users''
           @ '' SET '' @ Join (map (\<lambda>col. col @ '' = ?'') [''bio'']) '', ''
           @ '' WHERE '' @ Join (map (\<lambda>(name, v). name @ '' = ?'') (nonNull ?row)) '' AND ''
           = ''UPDATE users SET bio = ? WHERE id = ? AND bio = ?''"
    by code_simp
  have a: "map (newValueOf Sprintf_v ''old.site.com'' ''new.site.com'' ?row) [''bio'']
           @ map snd (nonNull ?row)
           = [Str ''visit new.site.com now'', Int64 1, Str ''visit old.site.com now'']"
    by code_simp
  from update_statement_shape [OF f ne, of site_db "''users''" 0 "[]"]
  have "snd (processRow Sprintf_v site_db ''users'' ''old.site.com'' ''new.site.com'' [''bio'']
            [''id'', ''bio''] [Int64 1, Str ''visit old.site.com now''] 0 [])
       = [] @ [Exec (''UPDATE '' @ ''users''
           @ '' SET '' @ Join (map (\<lambda>col. col @ '' = ?'') [''bio'']) '', ''
           @ '' WHERE '' @ Join (map (\<lambda>(name, v). name @ '' = ?'') (nonNull ?row)) '' AND '')
           (map (newValueOf Sprintf_v ''old.site.com'' ''new.site.com'' ?row) [''bio'']
           @ map snd (nonNull ?row))]" .
  then have "snd (processRow Sprintf_v site_db ''users'' ''old.site.com'' ''new.site.com'' [''bio'']
            [''id'', ''bio''] [Int64 1, Str ''visit old.site.com now''] 0 [])
       = [Exec ''UPDATE users SET bio = ? WHERE id = ? AND bio = ?''
            [Str ''visit new.site.com now'', Int64 1, Str ''visit old.site.com now'']]"
    by (simp only: q a append_Nil)
  with f show ?thesis by (rule conjI)
qed

section \<open>Errors\<close>

lemma rowsLoop_error_zero:
  "rowsLoop render db table search replace columns columnTypes rows tot hist
     = ((n, Some err), hist') \<Longrightarrow> n = 0"
  by (induction rows arbitrary: tot hist) (auto split: sum.splits prod.splits option.splits)

lemma processTableWith_error_zero:
  "processTableWith render db table search replace hist = ((n, Some err), hist') \<Longrightarrow> n = 0"
  by (auto simp: processTableWith_def Let_def dest: rowsLoop_error_zero
      split: sum.splits prod.splits if_splits)

lemma tablesLoop_error:
  assumes "processTableWith render db table search replace (sent st) = ((n, Some err), hist')"
  shows "tablesLoop render verbose db search replace (table # rest) st =
           tablesLoop render verbose db search replace rest
             (st\<lparr>sent := hist',
                 logs := logs st @ [''Error processing table '' @ table @ '': '' @ errorText err]\<rparr>)"
  using assms by (simp add: handleResult_def)

text \<open>
  Claim C10. When the loop over the rows stops on an error (a row that cannot be
  scanned, an \<^verbatim>\<open>UPDATE\<close> that fails), \<^verbatim>\<open>processTable\<close> returns the count 0
  with the error, whatever it had counted for the rows before; \<^verbatim>\<open>main\<close> then
  logs the error, writes no line for the table and adds nothing to the total.
\<close>

theorem mid_scan_error_returns_zero:
  "(rowsLoop render db table search replace columns columnTypes rows tot hist
      = ((n, Some err), hist') \<longrightarrow> n = 0)
   \<and> (processTableWith render db table search replace (sent st) = ((m, Some err'), hist'') \<longrightarrow>
        m = 0
        \<and> tablesLoop render verbose db search replace [table] st =
            st\<lparr>sent := hist'',
               logs := logs st @ [''Error processing table '' @ table @ '': '' @ errorText err']\<rparr>)"
proof -
  have a: "n = 0"
    if "rowsLoop render db table search replace columns columnTypes rows tot hist
          = ((n, Some err), hist')"
    using that by (rule rowsLoop_error_zero)
  have b: "m = 0
        \<and> tablesLoop render verbose db search replace [table] st =
            st\<lparr>sent := hist'',
               logs := logs st @ [''Error processing table '' @ table @ '': '' @ errorText err']\<rparr>"
    if "processTableWith render db table search replace (sent st) = ((m, Some err'), hist'')"
    using processTableWith_error_zero [OF that] tablesLoop_error [OF that, of verbose "[]"]
    by simp
  from a b show ?thesis by blast
qed

theorem mid_scan_error_returns_zero_witness:
  "rowsLoop Sprintf_v flaky_db ''users'' ''old'' ''new'' [''bio''] [''id'', ''bio'']
     [Inr [Int64 1, Str ''old a''], Inr [Int64 2, Str ''old b'']] 0
     [Query ''DESCRIBE users'', Query ''SELECT * FROM users'']
     = ((0, Some (DriverError ''Lock wait timeout exceeded'')),
        [Query ''DESCRIBE users'', Query ''SELECT * FROM users'',
         Exec ''UPDATE users SET bio = ? WHERE id = ? AND bio = ?''
           [Str ''new a'', Int64 1, Str ''old a''],
         Exec ''UPDATE users SET bio = ? WHERE id = ? AND bio = ?''
           [Str ''new b'', Int64 2, Str ''old b'']])
   \<and> ExecResult flaky_db [Query ''DESCRIBE users'', Query ''SELECT * FROM users'']
         ''UPDATE users SET bio = ? WHERE id = ? AND bio = ?''
         [Str ''new a'', Int64 1, Str ''old a''] = None
   \<and> tablesLoop Sprintf_v False flaky_db ''old'' ''new'' [''users''] run0 =
       \<lparr>grandTotal = 0,
        logs = [''Error processing table users: Lock wait timeout exceeded''],
        sent = [Query ''DESCRIBE users'', Query ''SELECT * FROM users'',
                Exec ''UPDATE users SET bio = ? WHERE id = ? AND bio = ?''
                  [Str ''new a'', Int64 1, Str ''old a''],
                Exec ''UPDATE users SET bio = ? WHERE id = ? AND bio = ?''
                  [Str ''new b'', Int64 2, Str ''old b'']]\<rparr>"
proof -
  let ?sent = "[Query ''DESCRIBE users'', Query ''SELECT * FROM users'',
         Exec ''UPDATE users SET bio = ? WHERE id = ? AND bio = ?''
           [Str ''new a'', Int64 1, Str ''old a''],
         Exec ''UPDATE users SET bio = ? WHERE id = ? AND bio = ?''
           [Str ''new b'', Int64 2, Str ''old b'']]"
  have r: "rowsLoop Sprintf_v flaky_db ''users'' ''old'' ''new'' [''bio''] [''id'', ''bio'']
     [Inr [Int64 1, Str ''old a''], Inr [Int64 2, Str ''old b'']] 0
     [Query ''DESCRIBE users'', Query ''SELECT * FROM users'']
     = ((0, Some (DriverError ''Lock wait timeout exceeded'')), ?sent)"
    by code_simp
  have e: "ExecResult flaky_db [Query ''DESCRIBE users'', Query ''SELECT * FROM users'']
         ''UPDATE users SET bio = ? WHERE id = ? AND bio = ?''
         [Str ''new a'', Int64 1, Str ''old a''] = None"
    by (simp add: flaky_db_def users_db_def)
  have p: "processTableWith Sprintf_v flaky_db ''users'' ''old'' ''new'' (sent run0)
           = ((0, Some (DriverError ''Lock wait timeout exceeded'')), ?sent)"
    by code_simp
  from mid_scan_error_returns_zero [of Sprintf_v flaky_db "''users''" "''old''" "''new''" _ _ _ _ _ _ _ _
      run0 0 "DriverError ''Lock wait timeout exceeded''" ?sent False] p
  have "tablesLoop Sprintf_v False flaky_db ''old'' ''new'' [''users''] run0 =
          run0\<lparr>sent := ?sent,
               logs := logs run0 @ [''Error processing table '' @ ''users'' @ '': ''
                        @ errorText (DriverError ''Lock wait timeout exceeded'')]\<rparr>"
    by blast
  then have t: "tablesLoop Sprintf_v False flaky_db ''old'' ''new'' [''users''] run0 =
       \<lparr>grandTotal = 0,
        logs = [''Error processing table users: Lock wait timeout exceeded''],
        sent = ?sent\<rparr>"
    by (simp add: run0_def)
  from r e t show ?thesis by (intro conjI)
qed

section \<open>Rows of nulls, and errors\<close>








section \<open>The two source files\<close>

text \<open>
  The two conversions give the same string for every value but a byte slice,
  for which \<^verbatim>\<open>%v\<close> prints more characters than the slice has bytes.
\<close>

lemma decimal_nonempty: "decimal n \<noteq> []"
  by (subst decimal.simps) simp

lemma Join_length:
  "\<forall>x \<in> set xs. x \<noteq> [] \<Longrightarrow> length xs \<le> length (Join xs sep)"
proof (induction xs sep rule: Join.induct)
  case (1 sep)
  then show ?case by simp
next
  case (2 x sep)
  then show ?case by (cases x) auto
next
  case (3 x y ys sep)
  then have "length (y # ys) \<le> length (Join (y # ys) sep)" by simp
  moreover from 3 have "1 \<le> length x" by (cases x) auto
  ultimately show ?case by simp
qed

lemma Sprintf_v_bytes_longer: "length bs < length (Sprintf_v (Bytes bs))"
proof -
  have "length (map (\<lambda>c. decimal (of_char c)) bs)
          \<le> length (Join (map (\<lambda>c. decimal (of_char c)) bs) '' '')"
    by (rule Join_length) (simp add: decimal_nonempty)
  then show ?thesis by simp
qed

lemma renderings_agree_iff:
  "convertToString v = Sprintf_v v \<longleftrightarrow> (\<forall>bs. v \<noteq> Bytes bs)"
proof (cases v)
  case (Bytes bs)
  have "Sprintf_v (Bytes bs) \<noteq> bs"
  proof
    assume "Sprintf_v (Bytes bs) = bs"
    then have "length (Sprintf_v (Bytes bs)) = length bs"
      by (rule arg_cong)
    with Sprintf_v_bytes_longer [of bs] show False
      by linarith
  qed
  with Bytes show ?thesis by auto
qed auto

text \<open>
  Claim C2, at the value that tells the two files apart. The driver delivers
  the text \<open>visit old.site.com now\<close> as a byte slice. \<^verbatim>\<open>main.go\<close> prints it with
  \<^verbatim>\<open>%v\<close> as a list of numbers, finds nothing to replace and sends no
  \<^verbatim>\<open>UPDATE\<close>; the variant with \<^verbatim>\<open>convertToString\<close> reads the bytes as text,
  replaces and counts 1.
\<close>

theorem byte_slice_rendered_differently:
  "Sprintf_v (Bytes ''abc'') = ''[97 98 99]''
   \<and> convertToString (Bytes ''abc'') = ''abc''
   \<and> processTable bytes_db ''users'' ''old.site.com'' ''new.site.com'' []
       = ((0, None), [Query ''DESCRIBE users'', Query ''SELECT * FROM users''])
   \<and> processTable_v bytes_db ''users'' ''old.site.com'' ''new.site.com'' []
       = ((1, None),
          [Query ''DESCRIBE users'', Query ''SELECT * FROM users'',
           Exec ''UPDATE users SET bio = ? WHERE id = ? AND bio = ?''
             [Str ''visit new.site.com now'', Int64 1, Bytes ''visit old.site.com now'']])"
  by code_simp

section \<open>A second pass of the replacement\<close>

lemma Contains_sublist: "Contains s substr = sublist substr s"
  by (induction s) (auto simp: sublist_Cons_right)

lemma replaceScan_absent:
  "\<not> sublist old s \<Longrightarrow> replaceScan s old new = s"
proof (induction s old new rule: replaceScan.induct)
  case (1 s old new)
  show ?case
  proof (cases s)
    case Nil
    then show ?thesis by (simp add: replaceScan.simps)
  next
    case (Cons c cs)
    from "1.prems" Cons have np: "\<not> prefix old s" and ns: "\<not> sublist old (tl s)"
      by (auto simp: sublist_Cons_right)
    from "1.IH"(2)[OF _ _ ns] np Cons have "replaceScan (tl s) old new = tl s"
      by auto
    with np Cons show ?thesis
      by (subst replaceScan.simps) simp
  qed
qed

lemma replaceScan_length:
  "old \<noteq> [] \<Longrightarrow>
   int (length (replaceScan s old new)) =
     int (length s) + int (occurrences s old) * (int (length new) - int (length old))"
proof (induction s old new rule: replaceScan.induct)
  case (1 s old new)
  show ?case
  proof (cases "s = []")
    case True
    then show ?thesis by (simp add: replaceScan.simps occurrences.simps)
  next
    case False
    show ?thesis
    proof (cases "prefix old s")
      case True
      then have len: "length old \<le> length s" by (rule prefix_length_le)
      from "1.IH"(1)[OF False _ "1.prems"] True "1.prems"
      have ih: "int (length (replaceScan (drop (length old) s) old new)) =
        int (length (drop (length old) s))
          + int (occurrences (drop (length old) s) old) * (int (length new) - int (length old))"
        by simp
      have r: "replaceScan s old new = new @ replaceScan (drop (length old) s) old new"
        using False True "1.prems" by (subst replaceScan.simps) simp
      have c: "occurrences s old = 1 + occurrences (drop (length old) s) old"
        using False True "1.prems" by (subst occurrences.simps) simp
      show ?thesis using ih len by (simp add: r c algebra_simps of_nat_diff)
    next
      case np: False
      from "1.IH"(2)[OF False _ "1.prems"] np
      have ih: "int (length (replaceScan (tl s) old new)) =
        int (length (tl s)) + int (occurrences (tl s) old) * (int (length new) - int (length old))"
        by simp
      have r: "replaceScan s old new = hd s # replaceScan (tl s) old new"
        using False np by (subst replaceScan.simps) simp
      have c: "occurrences s old = occurrences (tl s) old"
        using False np by (subst occurrences.simps) simp
      from False have "length s = Suc (length (tl s))" by (cases s) auto
      then show ?thesis using ih by (simp add: r c)
    qed
  qed
qed

lemma occurrences_pos: "old \<noteq> [] \<Longrightarrow> sublist old s \<Longrightarrow> 0 < occurrences s old"
proof (induction s old rule: occurrences.induct)
  case (1 s old)
  from "1.prems" have ne: "s \<noteq> []" by auto
  show ?case
  proof (cases "prefix old s")
    case True
    with ne "1.prems" show ?thesis by (subst occurrences.simps) simp
  next
    case False
    with ne "1.prems" have "sublist old (tl s)"
      by (cases s) (auto simp: sublist_Cons_right)
    from "1.IH"(2)[OF ne _ "1.prems"(1) this] False
    have "0 < occurrences (tl s) old" by simp
    with ne False show ?thesis by (subst occurrences.simps) simp
  qed
qed

lemma replaceScan_same_length_changes:
  "old \<noteq> [] \<Longrightarrow> old \<noteq> new \<Longrightarrow> length new = length old \<Longrightarrow> sublist old s \<Longrightarrow>
   replaceScan s old new \<noteq> s"
proof (induction s old new rule: replaceScan.induct)
  case (1 s old new)
  from "1.prems" have ne: "s \<noteq> []" by auto
  show ?case
  proof (cases "prefix old s")
    case True
    then obtain rest where s: "s = old @ rest" by (auto simp: prefix_def)
    have r: "replaceScan s old new = new @ replaceScan (drop (length old) s) old new"
      using ne True "1.prems" by (subst replaceScan.simps) simp
    show ?thesis
    proof
      assume "replaceScan s old new = s"
      with r s have "new @ replaceScan (drop (length old) s) old new = old @ rest" by simp
      with "1.prems"(3) have "new = old" by simp
      with "1.prems"(2) show False by simp
    qed
  next
    case False
    with ne "1.prems" have sub: "sublist old (tl s)"
      by (cases s) (auto simp: sublist_Cons_right)
    from "1.IH"(2)[OF ne _ "1.prems"(1,2,3) sub] False
    have "replaceScan (tl s) old new \<noteq> tl s" by simp
    moreover have "replaceScan s old new = hd s # replaceScan (tl s) old new"
      using ne False by (subst replaceScan.simps) simp
    ultimately show ?thesis using ne by (cases s) auto
  qed
qed

lemma replaceScan_present:
  assumes "old \<noteq> []" "old \<noteq> new" "sublist old s"
  shows "replaceScan s old new \<noteq> s"
proof (cases "length new = length old")
  case True
  with assms show ?thesis by (simp add: replaceScan_same_length_changes)
next
  case False
  have "0 < occurrences s old" using assms by (simp add: occurrences_pos)
  with False have "int (occurrences s old) * (int (length new) - int (length old)) \<noteq> 0"
    by simp
  with replaceScan_length[OF assms(1), of s new]
  have "length (replaceScan s old new) \<noteq> length s" by linarith
  then show ?thesis by auto
qed

lemma replaceScan_has_new:
  "old \<noteq> [] \<Longrightarrow> sublist old s \<Longrightarrow> sublist new (replaceScan s old new)"
proof (induction s old new rule: replaceScan.induct)
  case (1 s old new)
  from "1.prems" have ne: "s \<noteq> []" by auto
  show ?case
  proof (cases "prefix old s")
    case True
    have "replaceScan s old new = new @ replaceScan (drop (length old) s) old new"
      using ne True "1.prems" by (subst replaceScan.simps) simp
    then show ?thesis by simp
  next
    case False
    with ne "1.prems" have sub: "sublist old (tl s)"
      by (cases s) (auto simp: sublist_Cons_right)
    from "1.IH"(2)[OF ne _ "1.prems"(1) sub] False
    have "sublist new (replaceScan (tl s) old new)" by simp
    moreover have "replaceScan s old new = hd s # replaceScan (tl s) old new"
      using ne False by (subst replaceScan.simps) simp
    ultimately show ?thesis by (simp add: sublist_Cons_right)
  qed
qed

text \<open>
  Claim C7, as the replacement has it. For a non-empty search literal that differs
  from the replace literal, a second pass leaves the result of the first as it is
  exactly when that result no longer contains the search literal. When the replace
  literal contains the search literal and so does the input, the second pass always
  alters the result: for such inputs a replace literal without the search literal
  is needed for a fixed point. It is not enough, since a replacement can bring
  the two sides of an occurrence together into a new one.
\<close>

theorem second_pass_fixed_point:
  assumes "search \<noteq> []" and "search \<noteq> replace"
  shows "(ReplaceAll (ReplaceAll s search replace) search replace = ReplaceAll s search replace
            \<longleftrightarrow> \<not> Contains (ReplaceAll s search replace) search)
         \<and> (Contains s search \<and> Contains replace search \<longrightarrow>
              ReplaceAll (ReplaceAll s search replace) search replace
                \<noteq> ReplaceAll s search replace)"
proof -
  have R: "ReplaceAll t search replace = replaceScan t search replace" for t
    using assms by (simp add: ReplaceAll_def)
  have fixed: "replaceScan t search replace = t \<longleftrightarrow> \<not> sublist search t" for t
    using assms replaceScan_absent [of search t replace] replaceScan_present [of search replace t]
    by auto
  have "sublist search (replaceScan s search replace)"
    if "sublist search s" and "sublist search replace"
  proof -
    from that(1) assms(1) have "sublist replace (replaceScan s search replace)"
      by (simp add: replaceScan_has_new)
    with that(2) show ?thesis
      by (rule sublist_order.order.trans)
  qed
  with fixed show ?thesis
    by (auto simp: R Contains_sublist)
qed

theorem second_pass_fixed_point_witness:
  "''foo'' \<noteq> [] \<and> ''foo'' \<noteq> ''bar''
   \<and> \<not> Contains (ReplaceAll ''a foo b foo'' ''foo'' ''bar'') ''foo''
   \<and> ReplaceAll (ReplaceAll ''a foo b foo'' ''foo'' ''bar'') ''foo'' ''bar''
       = ReplaceAll ''a foo b foo'' ''foo'' ''bar''
   \<and> ''a'' \<noteq> [] \<and> ''a'' \<noteq> ''aa'' \<and> Contains ''a'' ''a'' \<and> Contains ''aa'' ''a''
   \<and> ReplaceAll (ReplaceAll ''a'' ''a'' ''aa'') ''a'' ''aa'' \<noteq> ReplaceAll ''a'' ''a'' ''aa''"
proof -
  have f1: "''foo'' \<noteq> []" and f2: "''foo'' \<noteq> ''bar''" by simp_all
  have f3: "\<not> Contains (ReplaceAll ''a foo b foo'' ''foo'' ''bar'') ''foo''" by code_simp
  from second_pass_fixed_point [OF f1 f2, of "''a foo b foo''"] f3
  have f4: "ReplaceAll (ReplaceAll ''a foo b foo'' ''foo'' ''bar'') ''foo'' ''bar''
       = ReplaceAll ''a foo b foo'' ''foo'' ''bar''"
    by blast
  have a1: "''a'' \<noteq> []" and a2: "''a'' \<noteq> ''aa''" by simp_all
  have a3: "Contains ''a'' ''a''" and a4: "Contains ''aa'' ''a''" by code_simp+
  from second_pass_fixed_point [OF a1 a2, of "''a''"] a3 a4
  have a5: "ReplaceAll (ReplaceAll ''a'' ''a'' ''aa'') ''a'' ''aa'' \<noteq> ReplaceAll ''a'' ''a'' ''aa''"
    by blast
  from f1 f2 f3 f4 a1 a2 a3 a4 a5 show ?thesis by (intro conjI)
qed

text \<open>
  The replace literal \<open>a\<close> does not contain the search literal \<open>ab\<close>, and yet
  the second pass alters what the first made of \<open>abb\<close>.
\<close>

theorem second_pass_counterexample:
  "\<not> Contains ''a'' ''ab''
   \<and> ReplaceAll ''abb'' ''ab'' ''a'' = ''ab''
   \<and> ReplaceAll (ReplaceAll ''abb'' ''ab'' ''a'') ''ab'' ''a'' = ''a''
   \<and> ReplaceAll (ReplaceAll ''abb'' ''ab'' ''a'') ''ab'' ''a'' \<noteq> ReplaceAll ''abb'' ''ab'' ''a''"
  by code_simp

end
